theory Spec2Isabelle
  imports Main
begin

section \<open>Values, nodes and the engine state\<close>

text \<open>
  The reactive engine of the repository (the module that defines \<open>root\<close>, \<open>observable\<close>,
  \<open>computed\<close>, \<open>effect\<close>, \<open>dispose\<close>, \<open>compute\<close>, \<open>lookup\<close>, \<open>notify\<close> and
  \<open>handleError\<close>) is embedded function by function. Every engine function becomes a HOL
  function over an explicit \<open>state\<close>; a thrown value is the result \<open>Inl (Thrown v)\<close>.

  The engine calls back into user code (derivation bodies, disposal callbacks, error
  handlers, dirty predicates) and user code calls the engine. User code is therefore
  given by a small expression language (\<open>expr\<close>) and a table of user functions
  (\<open>program\<close>); the mutual recursion between the engine and user code is closed by a
  depth bound (\<open>run\<close>), and running out of it is the result \<open>Inl OutOfFuel\<close>, which no
  \<open>catch\<close> of the engine intercepts.

  Left out: \<open>scope(fn)\<close> (it puts engine properties on a user function),
  \<open>getScheduler\<close>, and the \<open>console.error\<close> of \<open>$computed\<close> (logging). Two values are
  \<open>!==\<close> when they differ as terms, so two \<open>Error\<close> objects with the same message are
  not told apart.
\<close>

datatype val =
    Undefined
  | Null
  | Boolean bool
  | Number int
  | Str string
  | ErrorObj string         \<comment> \<open>\<open>Error(msg)\<close>\<close>
  | JsonError val           \<comment> \<open>\<open>Error(JSON.stringify(v))\<close>, the host's \<open>JSON.stringify\<close> left uninterpreted\<close>
  | Ref nat                 \<comment> \<open>a node: \<open>$observable\<close>, \<open>$computed\<close>, \<open>$readonly\<close> or \<open>$root\<close>\<close>
  | Fn nat                  \<comment> \<open>a user function, by its index in the program\<close>
  | Disposer nat            \<comment> \<open>the closure \<open>() => dispose(node)\<close> made by \<open>root\<close> and \<open>effect\<close>\<close>
  | Handle val nat          \<comment> \<open>the closure returned by \<open>onDispose(dispose)\<close> under scope \<open>scope\<close>\<close>
  | NOOP
  | Api api                 \<comment> \<open>an exported function of the module\<close>
and api =
    ROOT | PEEK | UNTRACK
  | OBSERVABLE_FN "string option" "val option"                \<comment> \<open>\<open>options.id\<close>, \<open>options.dirty\<close>\<close>
  | SET | NEXT
  | IS_OBSERVABLE
  | COMPUTED_FN "string option" "val option" "val option"     \<comment> \<open>\<open>id\<close>, \<open>dirty\<close>, \<open>fallback\<close>\<close>
  | EFFECT_FN "string option"
  | READONLY | TICK | IS_SUBJECT | GET_SCOPE
  | GET_CONTEXT string | SET_CONTEXT string | ON_ERROR | ON_DISPOSE | DISPOSE_FN

text \<open>JavaScript truthiness of a value (\<open>!!v\<close>).\<close>

fun truthy :: "val \<Rightarrow> bool" where
  "truthy Undefined = False"
| "truthy Null = False"
| "truthy (Boolean b) = b"
| "truthy (Number n) = (n \<noteq> 0)"
| "truthy (Str s) = (s \<noteq> [])"
| "truthy _ = True"

text \<open>\<open>v == null\<close>: the test behind \<open>??\<close> and \<open>?.\<close>.\<close>

fun nullish :: "val \<Rightarrow> bool" where
  "nullish Undefined = True"
| "nullish Null = True"
| "nullish _ = False"

text \<open>
  Requests are the calls through which the engine and user code re-enter each other:
  calling a value, \<open>dispose(node)\<close>, \<open>handleError(node, error)\<close>, the body that \<open>effect\<close>
  wraps around the user's function, and the scheduler's drain loop.
\<close>

datatype request =
    Invoke val "val list"
  | Dispose nat
  | HandleError "nat option" val
  | EffectFn val
  | Drain

datatype kind = Plain | Observable | Computed | Readonly val

datatype ckey = ERROR | Key string

datatype cval = HandlerSet "val list" | Entry val

text \<open>
  The \<open>CONTEXT\<close> record of a scope: the handler set stored under the reserved \<open>ERROR\<close>
  symbol, and the values stored under user keys.
\<close>

record ctx =
  errors :: "val list option"
  entries :: "string \<Rightarrow> val"

text \<open>
  A node is a function object of the module together with the variables its closure
  captures (\<open>currentValue\<close>, \<open>init\<close>, \<open>isDirty\<close>, \<open>fn\<close>, \<open>options.fallback\<close>) and the
  symbol-keyed properties of interface \<open>Node\<close>. A property that is \<open>undefined\<close> or
  \<open>null\<close> is \<open>None\<close>; a \<open>Set\<close> is the list of its elements in insertion order, without
  duplicates.
\<close>

record node =
  kind :: kind
  ident :: "string option"
  currentValue :: val
  isDirty :: "val option"
  init :: bool
  fn :: request
  fallback :: val
  SCOPE :: "nat option"
  OBSERVABLE :: bool
  DIRTY :: bool
  DISPOSED :: bool
  CHILDREN :: "nat list option"
  OBSERVERS :: "nat list option"
  DISPOSAL :: "val list option"
  CONTEXT :: "ctx option"

definition blank :: node where
  "blank = \<lparr> kind = Plain, ident = None, currentValue = Undefined, isDirty = None,
     init = False, fn = Invoke NOOP [], fallback = Undefined, SCOPE = None,
     OBSERVABLE = False, DIRTY = False, DISPOSED = False, CHILDREN = None,
     OBSERVERS = None, DISPOSAL = None, CONTEXT = None \<rparr>"

text \<open>
  The module-level variables: \<open>currentScope\<close>, \<open>currentObserver\<close>, \<open>prevScope\<close>,
  \<open>prevObserver\<close>, \<open>effectResult\<close>, and the two debugging stacks. \<open>callStack\<close> and
  \<open>computeStack\<close> are assigned only \<open>if (__DEV__)\<close> and every use is guarded by
  \<open>__DEV__\<close>, so \<open>stacks = None\<close> is a production build and
  \<open>stacks = Some (callStack, computeStack)\<close> a development build.

  \<open>pending\<close>, \<open>scheduled\<close> and \<open>tickCount\<close> are the scheduler (see below); \<open>vars\<close> are
  the variables of the user program and \<open>calls\<close> records the calls of the user
  program's probes (the mock functions of the tests) with their arguments.
\<close>

record state =
  heap :: "nat \<Rightarrow> node"
  nextId :: nat
  currentScope :: "nat option"
  currentObserver :: "nat option"
  prevScope :: "nat option"
  prevObserver :: "nat option"
  effectResult :: val
  stacks :: "(nat list \<times> nat list) option"
  pending :: "nat list"
  scheduled :: bool
  tickCount :: nat
  vars :: "nat \<Rightarrow> val"
  calls :: "(nat \<times> val list) list"

definition initial :: "bool \<Rightarrow> state" where
  "initial dev = \<lparr> heap = (\<lambda>_. blank), nextId = 0, currentScope = None,
     currentObserver = None, prevScope = None, prevObserver = None,
     effectResult = Undefined, stacks = (if dev then Some ([], []) else None),
     pending = [], scheduled = False, tickCount = 0, vars = (\<lambda>_. Undefined), calls = [] \<rparr>"

definition DEV :: "state \<Rightarrow> bool" where
  "DEV s = (stacks s \<noteq> None)"

definition callStack :: "state \<Rightarrow> nat list" where
  "callStack s = (case stacks s of None \<Rightarrow> [] | Some (cs, ks) \<Rightarrow> cs)"

definition computeStack :: "state \<Rightarrow> nat list" where
  "computeStack s = (case stacks s of None \<Rightarrow> [] | Some (cs, ks) \<Rightarrow> ks)"

definition update :: "nat \<Rightarrow> (node \<Rightarrow> node) \<Rightarrow> state \<Rightarrow> state" where
  "update n f s = s\<lparr>heap := (heap s)(n := f (heap s n))\<rparr>"

definition alloc :: "node \<Rightarrow> state \<Rightarrow> nat \<times> state" where
  "alloc nd s = (nextId s, s\<lparr>heap := (heap s)(nextId s := nd), nextId := Suc (nextId s)\<rparr>)"

subsection \<open>Results\<close>

datatype abort = Thrown val | OutOfFuel

type_synonym 'a result = "(abort + 'a) \<times> state"
type_synonym 'a action = "state \<Rightarrow> 'a result"
type_synonym recur = "request \<Rightarrow> val action"

definition ret :: "'a \<Rightarrow> 'a action" where
  "ret v s = (Inr v, s)"

definition throw :: "val \<Rightarrow> 'a action" where
  "throw e s = (Inl (Thrown e), s)"

definition modify :: "(state \<Rightarrow> state) \<Rightarrow> val action" where
  "modify f s = (Inr Undefined, f s)"

definition andThen :: "'a action \<Rightarrow> ('a \<Rightarrow> 'b action) \<Rightarrow> 'b action" where
  "andThen m f s = (case m s of (Inl a, s') \<Rightarrow> (Inl a, s') | (Inr v, s') \<Rightarrow> f v s')"

text \<open>\<open>try { m } catch (error) { h error }\<close>\<close>

definition tryCatch :: "'a action \<Rightarrow> (val \<Rightarrow> 'a action) \<Rightarrow> 'a action" where
  "tryCatch m h s = (case m s of (Inl (Thrown e), s') \<Rightarrow> h e s' | r \<Rightarrow> r)"

text \<open>\<open>try { return m } finally { fin }\<close>, for a \<open>finally\<close> block that only assigns.\<close>

definition tryFinally :: "'a action \<Rightarrow> (state \<Rightarrow> state) \<Rightarrow> 'a action" where
  "tryFinally m fin s = (case m s of (Inl OutOfFuel, s') \<Rightarrow> (Inl OutOfFuel, s') | (r, s') \<Rightarrow> (r, fin s'))"

text \<open>
  \<open>for (const x of xs) f(x)\<close>, over the elements the set holds when the loop starts,
  in insertion order. (A callback that adds to or deletes from the very set a loop is
  walking is not followed by the embedding; no scenario below does that.)
\<close>

fun forEach :: "('a \<Rightarrow> val action) \<Rightarrow> 'a list \<Rightarrow> val action" where
  "forEach f [] = ret Undefined"
| "forEach f (x # xs) = andThen (f x) (\<lambda>_. forEach f xs)"

subsection \<open>Sets\<close>

definition add :: "'a \<Rightarrow> 'a list \<Rightarrow> 'a list" where
  "add x xs = (if x \<in> set xs then xs else xs @ [x])"

definition delete :: "'a \<Rightarrow> 'a list \<Rightarrow> 'a list" where
  "delete x xs = filter (\<lambda>y. y \<noteq> x) xs"

text \<open>\<open>set?.size\<close> as a condition: the set exists and is not empty.\<close>

definition hasSize :: "'a list option \<Rightarrow> bool" where
  "hasSize xs = (case xs of None \<Rightarrow> False | Some ys \<Rightarrow> ys \<noteq> [])"

definition members :: "'a list option \<Rightarrow> 'a list" where
  "members xs = (case xs of None \<Rightarrow> [] | Some ys \<Rightarrow> ys)"

section \<open>The scheduler\<close>

text \<open>
  Modelled from the spec: the scheduler module (\<open>./scheduler\<close>, \<open>createScheduler\<close>) is not
  among the sources. The spec gives it a pending set that keeps first-insertion order,
  \<open>enqueue(node)\<close> that adds to it and schedules a flush on the host's microtask queue
  when none is scheduled, and a synchronous \<open>flush()\<close> that increments the tick counter
  and then, while the set is not empty, takes the next node and invokes it as a read;
  the hooks registered with \<open>onFlush\<close> run after the drain. Nothing runs inside
  \<open>enqueue\<close>.
\<close>

definition enqueue :: "nat \<Rightarrow> state \<Rightarrow> state" where
  "enqueue n s = s\<lparr>pending := add n (pending s), scheduled := True\<rparr>"

text \<open>
  Modelled from the spec: the drain loop of \<open>flush()\<close>, which takes the pending nodes
  in order and invokes each as a read; nodes enqueued meanwhile are taken in the same
  flush.
\<close>

definition drain :: "recur \<Rightarrow> val action" where
  "drain rec s =
     (case pending s of
        [] \<Rightarrow> ret Undefined s
      | n # rest \<Rightarrow>
          andThen (rec (Invoke (Ref n) [])) (\<lambda>_. rec Drain) (s\<lparr>pending := rest\<rparr>))"

text \<open>
  The one hook the module registers: \<open>scheduler.onFlush(() => { callStack.length = 0 })\<close>,
  under \<open>__DEV__\<close>.
\<close>

definition onFlush :: "state \<Rightarrow> state" where
  "onFlush s = s\<lparr>stacks := map_option (\<lambda>(cs, ks). ([], ks)) (stacks s)\<rparr>"

text \<open>
  Modelled from the spec: \<open>flush()\<close> increments the tick counter at its start, drains,
  and runs the \<open>onFlush\<close> hook.
\<close>

definition flush :: "recur \<Rightarrow> val action" where
  "flush rec s =
     andThen (rec Drain) (\<lambda>_. modify onFlush)
       (s\<lparr>tickCount := Suc (tickCount s), scheduled := False\<rparr>)"

section \<open>The engine\<close>

subsection \<open>Debugging stacks\<close>

definition pushCall :: "nat \<Rightarrow> state \<Rightarrow> state" where
  "pushCall n s = s\<lparr>stacks := map_option (\<lambda>(cs, ks). (cs @ [n], ks)) (stacks s)\<rparr>"

definition pushCompute :: "nat \<Rightarrow> state \<Rightarrow> state" where
  "pushCompute n s = s\<lparr>stacks := map_option (\<lambda>(cs, ks). (cs, ks @ [n])) (stacks s)\<rparr>"

definition popCompute :: "state \<Rightarrow> state" where
  "popCompute s = s\<lparr>stacks := map_option (\<lambda>(cs, ks). (cs, butlast ks)) (stacks s)\<rparr>"

fun join :: "string \<Rightarrow> string list \<Rightarrow> string" where
  "join sep [] = []"
| "join sep [x] = x"
| "join sep (x # y # ys) = x @ sep @ join sep (y # ys)"

text \<open>
  \<open>`cyclic dependency detected\n\n${calls}\n`\<close> with
  \<open>calls = callStack.map((c) => c.id ?? '?').join(' --> ')\<close>.
\<close>

definition cyclicMessage :: "state \<Rightarrow> string" where
  "cyclicMessage s =
     ''cyclic dependency detected'' @ [CHR 0x0A, CHR 0x0A]
       @ join '' --> '' (map (\<lambda>c. case ident (heap s c) of None \<Rightarrow> ''?'' | Some i \<Rightarrow> i) (callStack s))
       @ [CHR 0x0A]"

subsection \<open>\<open>compute\<close>, \<open>lookup\<close>, \<open>adopt\<close>, \<open>notify\<close>, \<open>notEqual\<close>\<close>

text \<open>
  \<open>compute(scope, node, observer)\<close>. The previous slots are saved in the module-level
  variables \<open>prevScope\<close> and \<open>prevObserver\<close>, and the \<open>finally\<close> block restores from
  them and sets them to \<open>null\<close>. The push on \<open>computeStack\<close> is under
  \<open>__DEV__ && scope\<close>, the pop under \<open>__DEV__\<close>.
\<close>

definition compute :: "recur \<Rightarrow> nat option \<Rightarrow> request \<Rightarrow> nat option \<Rightarrow> val action" where
  "compute rec scope node observer s =
     (let s1 = s\<lparr>prevScope := currentScope s, prevObserver := currentObserver s\<rparr>;
          s2 = s1\<lparr>currentScope := scope, currentObserver := observer\<rparr>;
          s3 = (case scope of None \<Rightarrow> s2 | Some sc \<Rightarrow> pushCompute sc s2)
      in tryFinally (rec node)
           (\<lambda>t. popCompute (t\<lparr>currentScope := prevScope t, currentObserver := prevObserver t,
                               prevScope := None, prevObserver := None\<rparr>))
           s3)"

text \<open>\<open>current[CONTEXT]?.[key]\<close>, with \<open>None\<close> for \<open>undefined\<close>.\<close>

definition ctxGet :: "ctx option \<Rightarrow> ckey \<Rightarrow> cval option" where
  "ctxGet c key =
     (case c of
        None \<Rightarrow> None
      | Some r \<Rightarrow>
          (case key of
             ERROR \<Rightarrow> map_option HandlerSet (errors r)
           | Key k \<Rightarrow> (if entries r k = Undefined then None else Some (Entry (entries r k)))))"

text \<open>
  \<open>lookup(node, key)\<close>: the \<open>while (current)\<close> loop up the \<open>SCOPE\<close> links. The outer
  \<open>None\<close> is a loop that does not end (a cyclic chain without the key); \<open>Some None\<close>
  is the result \<open>undefined\<close>.
\<close>

partial_function (option) lookup :: "state \<Rightarrow> nat option \<Rightarrow> ckey \<Rightarrow> cval option option" where
  "lookup s node key =
     (case node of
        None \<Rightarrow> Some None
      | Some current \<Rightarrow>
          (case ctxGet (CONTEXT (heap s current)) key of
             Some v \<Rightarrow> Some (Some v)
           | None \<Rightarrow> lookup s (SCOPE (heap s current)) key))"

declare lookup.simps [code]

text \<open>\<open>adopt(node)\<close>; its callers test \<open>currentScope\<close> first.\<close>

definition adopt :: "nat \<Rightarrow> state \<Rightarrow> state" where
  "adopt nd s =
     (case currentScope s of
        None \<Rightarrow> s
      | Some sc \<Rightarrow> update sc (\<lambda>x. x\<lparr>CHILDREN := Some (add nd (members (CHILDREN x)))\<rparr>) s)"

text \<open>
  \<open>notify(observers)\<close>, for the set \<open>observers\<close> that is the \<open>OBSERVERS\<close> property of
  node \<open>n\<close>: a disposed observer is deleted from that set, any other is marked dirty
  and enqueued.
\<close>

fun notifyEach :: "nat \<Rightarrow> nat list \<Rightarrow> state \<Rightarrow> state" where
  "notifyEach n [] s = s"
| "notifyEach n (observer # rest) s =
     notifyEach n rest
       (if DISPOSED (heap s observer)
        then update n (\<lambda>x. x\<lparr>OBSERVERS := map_option (delete observer) (OBSERVERS x)\<rparr>) s
        else enqueue observer (update observer (\<lambda>x. x\<lparr>DIRTY := True\<rparr>) s))"

definition notify :: "nat \<Rightarrow> state \<Rightarrow> state" where
  "notify n s = notifyEach n (members (OBSERVERS (heap s n))) s"

definition notEqual :: "val \<Rightarrow> val \<Rightarrow> bool" where
  "notEqual a b = (a \<noteq> b)"

text \<open>
  The call \<open>isDirty(currentValue, nextValue)\<close>, where \<open>isDirty\<close> is
  \<open>options?.dirty ?? notEqual\<close>: \<open>None\<close> is \<open>notEqual\<close>, \<open>Some f\<close> the user's predicate.
\<close>

definition dirtyOption :: "val option \<Rightarrow> val option" where
  "dirtyOption d = (case d of None \<Rightarrow> None | Some f \<Rightarrow> if nullish f then None else Some f)"

definition callIsDirty :: "recur \<Rightarrow> val option \<Rightarrow> val \<Rightarrow> val \<Rightarrow> bool action" where
  "callIsDirty rec p a b =
     (case p of
        None \<Rightarrow> ret (notEqual a b)
      | Some f \<Rightarrow> andThen (rec (Invoke f [a, b])) (\<lambda>r. ret (truthy r)))"

subsection \<open>\<open>observable\<close>\<close>

definition observable :: "val \<Rightarrow> string option \<Rightarrow> val option \<Rightarrow> nat action" where
  "observable initialValue oid dirty s =
     (let (n, s1) = alloc (blank\<lparr>kind := Observable, currentValue := initialValue,
                 isDirty := dirtyOption dirty,
                 ident := (if DEV s then Some (case oid of None \<Rightarrow> ''observable'' | Some i \<Rightarrow> i) else None),
                 SCOPE := currentScope s, OBSERVABLE := True, OBSERVERS := None\<rparr>) s
      in (Inr n, if currentScope s1 \<noteq> None then adopt n s1 else s1))"

text \<open>
  The head of both \<open>$observable()\<close> and \<open>$computed()\<close>:
  \<open>if (__DEV__) callStack.push(node); if (currentObserver) { if (!node[OBSERVERS])
  node[OBSERVERS] = new Set(); node[OBSERVERS].add(currentObserver) }\<close>.
\<close>

definition track :: "nat \<Rightarrow> state \<Rightarrow> state" where
  "track n s =
     (let s1 = pushCall n s
      in case currentObserver s1 of
           None \<Rightarrow> s1
         | Some ob \<Rightarrow> update n (\<lambda>x. x\<lparr>OBSERVERS := Some (add ob (members (OBSERVERS x)))\<rparr>) s1)"

text \<open>The call \<open>$observable()\<close>.\<close>

definition observable_read :: "nat \<Rightarrow> val action" where
  "observable_read n s = (let s2 = track n s in (Inr (currentValue (heap s2 n)), s2))"

text \<open>\<open>$observable.set(nextValue)\<close>\<close>

definition observable_set :: "recur \<Rightarrow> nat \<Rightarrow> val \<Rightarrow> val action" where
  "observable_set rec n nextValue s =
     (if DISPOSED (heap s n) then ret Undefined s
      else andThen (callIsDirty rec (isDirty (heap s n)) (currentValue (heap s n)) nextValue)
             (\<lambda>d. if d
                   then modify (\<lambda>t. let t1 = update n (\<lambda>x. x\<lparr>currentValue := nextValue\<rparr>) t
                                    in if hasSize (OBSERVERS (heap t1 n)) then notify n t1 else t1)
                   else ret Undefined) s)"

text \<open>\<open>$observable.next(next)\<close>\<close>

definition observable_next :: "recur \<Rightarrow> nat \<Rightarrow> val \<Rightarrow> val action" where
  "observable_next rec n next s =
     andThen (rec (Invoke next [currentValue (heap s n)])) (\<lambda>v. observable_set rec n v) s"

definition isObservable :: "val \<Rightarrow> state \<Rightarrow> bool" where
  "isObservable f s = (case f of Ref n \<Rightarrow> OBSERVABLE (heap s n) | _ \<Rightarrow> False)"

text \<open>\<open>isObservable(fn) && 'set' in fn\<close>: only \<open>observable\<close> gives its function a \<open>set\<close>.\<close>

definition isSubject :: "val \<Rightarrow> state \<Rightarrow> bool" where
  "isSubject f s = (isObservable f s \<and> (case f of Ref n \<Rightarrow> kind (heap s n) = Observable | _ \<Rightarrow> False))"

subsection \<open>\<open>onDispose\<close>, \<open>dispose\<close>, \<open>onError\<close>, \<open>handleError\<close>\<close>

text \<open>
  \<open>onDispose(dispose)\<close>: \<open>if (!dispose || !currentScope) return dispose || NOOP\<close>, else
  the callback is added to \<open>currentScope[DISPOSAL]\<close> and a handle is returned.
\<close>

definition onDispose :: "val \<Rightarrow> val action" where
  "onDispose d s =
     (case currentScope s of
        None \<Rightarrow> ret (if truthy d then d else NOOP) s
      | Some scope \<Rightarrow>
          if \<not> truthy d then ret NOOP s
          else (Inr (Handle d scope),
                update scope (\<lambda>x. x\<lparr>DISPOSAL := Some (add d (members (DISPOSAL x)))\<rparr>) s))"

text \<open>The handle: \<open>() => { dispose(); scope[DISPOSAL]?.delete(dispose) }\<close>.\<close>

definition callHandle :: "recur \<Rightarrow> val \<Rightarrow> nat \<Rightarrow> val action" where
  "callHandle rec d scope =
     andThen (rec (Invoke d []))
       (\<lambda>_. modify (update scope (\<lambda>x. x\<lparr>DISPOSAL := map_option (delete d) (DISPOSAL x)\<rparr>)))"

text \<open>\<open>dispose(fn)\<close>\<close>

definition dispose :: "recur \<Rightarrow> nat \<Rightarrow> val action" where
  "dispose rec f =
     andThen
       (\<lambda>s. case CHILDREN (heap s f) of
               None \<Rightarrow> ret Undefined s
             | Some children \<Rightarrow>
                 forEach (\<lambda>child. rec (Dispose child)) children
                   (update f (\<lambda>x. x\<lparr>CHILDREN := None\<rparr>) s))
       (\<lambda>_. andThen
          (\<lambda>s. case DISPOSAL (heap s f) of
                  None \<Rightarrow> ret Undefined s
                | Some ds \<Rightarrow>
                    andThen (forEach (\<lambda>d. rec (Invoke d [])) ds)
                      (\<lambda>_. modify (update f (\<lambda>x. x\<lparr>DISPOSAL := None\<rparr>))) s)
          (\<lambda>_. modify
             (\<lambda>s. let s1 = (case SCOPE (heap s f) of
                              None \<Rightarrow> s
                            | Some p \<Rightarrow>
                                update f (\<lambda>x. x\<lparr>SCOPE := None\<rparr>)
                                  (update p (\<lambda>x. x\<lparr>CHILDREN := map_option (delete f) (CHILDREN x)\<rparr>) s))
                   in update f (\<lambda>x. x\<lparr>OBSERVERS := None, CONTEXT := None, DISPOSED := True\<rparr>) s1)))"

text \<open>
  \<open>onError(handler)\<close>:
  \<open>(((currentScope[CONTEXT] ??= {})[ERROR]) ??= new Set()).add(handler)\<close>.
\<close>

definition emptyCtx :: ctx where
  "emptyCtx = \<lparr> errors = None, entries = (\<lambda>_. Undefined) \<rparr>"

definition orEmpty :: "ctx option \<Rightarrow> ctx" where
  "orEmpty c = (case c of None \<Rightarrow> emptyCtx | Some r \<Rightarrow> r)"

definition onError :: "val \<Rightarrow> val action" where
  "onError handler s =
     (case currentScope s of
        None \<Rightarrow> ret Undefined s
      | Some scope \<Rightarrow>
          modify (update scope
            (\<lambda>x. x\<lparr>CONTEXT := Some ((orEmpty (CONTEXT x))
                     \<lparr>errors := Some (add handler (members (errors (orEmpty (CONTEXT x)))))\<rparr>)\<rparr>)) s)"

text \<open>\<open>error instanceof Error ? error : Error(JSON.stringify(error))\<close>\<close>

fun coerce :: "val \<Rightarrow> val" where
  "coerce (ErrorObj m) = ErrorObj m"
| "coerce (JsonError v) = JsonError v"
| "coerce v = JsonError v"

text \<open>
  \<open>handleError(node, error)\<close>. The \<open>catch\<close> block calls
  \<open>handleError(node![SCOPE]!, error)\<close> with the error the handler threw. Only \<open>onError\<close>
  writes under the \<open>ERROR\<close> symbol, so what \<open>lookup\<close> finds there is a handler set.
\<close>

definition handleError :: "recur \<Rightarrow> nat option \<Rightarrow> val \<Rightarrow> val action" where
  "handleError rec node error s =
     (case lookup s node ERROR of
        None \<Rightarrow> (Inl OutOfFuel, s)
      | Some (Some (HandlerSet handlers)) \<Rightarrow>
          tryCatch (forEach (\<lambda>handler. rec (Invoke handler [coerce error])) handlers)
            (\<lambda>error' t. rec (HandleError (case node of None \<Rightarrow> None | Some n \<Rightarrow> SCOPE (heap t n)) error') t) s
      | Some _ \<Rightarrow> throw error s)"

subsection \<open>\<open>computed\<close> and \<open>effect\<close>\<close>

definition computed :: "request \<Rightarrow> string option \<Rightarrow> val option \<Rightarrow> val option \<Rightarrow> nat action" where
  "computed f oid dirty fb s =
     (let (n, s1) = alloc (blank\<lparr>kind := Computed, fn := f, currentValue := Undefined, init := False,
                 isDirty := dirtyOption dirty,
                 fallback := (case fb of None \<Rightarrow> Undefined | Some v \<Rightarrow> v),
                 ident := (if DEV s then Some (case oid of None \<Rightarrow> ''computed'' | Some i \<Rightarrow> i) else None),
                 SCOPE := currentScope s, OBSERVABLE := True, DIRTY := True, CHILDREN := None,
                 OBSERVERS := None, CONTEXT := None, DISPOSAL := None\<rparr>) s
      in (Inr n, if currentScope s1 \<noteq> None then adopt n s1 else s1))"

text \<open>The three clean-up steps at the head of the \<open>try\<close> block of \<open>$computed\<close>.\<close>

definition disposeChildren :: "recur \<Rightarrow> nat \<Rightarrow> val action" where
  "disposeChildren rec c s =
     (if hasSize (CHILDREN (heap s c))
      then andThen (forEach (\<lambda>child. rec (Dispose child)) (members (CHILDREN (heap s c))))
             (\<lambda>_. modify (update c (\<lambda>x. x\<lparr>CHILDREN := Some []\<rparr>))) s
      else ret Undefined s)"

definition runDisposal :: "recur \<Rightarrow> nat \<Rightarrow> val action" where
  "runDisposal rec c s =
     (if hasSize (DISPOSAL (heap s c))
      then andThen (forEach (\<lambda>d. rec (Invoke d [])) (members (DISPOSAL (heap s c))))
             (\<lambda>_. modify (update c (\<lambda>x. x\<lparr>DISPOSAL := Some []\<rparr>))) s
      else ret Undefined s)"

definition clearErrors :: "nat \<Rightarrow> state \<Rightarrow> state" where
  "clearErrors c s =
     (case CONTEXT (heap s c) of
        None \<Rightarrow> s
      | Some r \<Rightarrow> if hasSize (errors r)
                  then update c (\<lambda>x. x\<lparr>CONTEXT := Some (r\<lparr>errors := Some []\<rparr>)\<rparr>) s
                  else s)"

text \<open>
  The end of the \<open>try\<close> block, after \<open>const nextValue = compute($computed, fn, $computed)\<close>:
  \<open>if (isDirty(currentValue, nextValue)) { currentValue = nextValue;
  if ($computed[OBSERVERS]?.size) notify($computed[OBSERVERS]) }\<close>.
\<close>

definition store :: "nat \<Rightarrow> val \<Rightarrow> state \<Rightarrow> state" where
  "store c nextValue s =
     (let s1 = update c (\<lambda>x. x\<lparr>currentValue := nextValue\<rparr>) s
      in if hasSize (OBSERVERS (heap s1 c)) then notify c s1 else s1)"

definition compare :: "recur \<Rightarrow> nat \<Rightarrow> val \<Rightarrow> val action" where
  "compare rec c nextValue s =
     andThen (callIsDirty rec (isDirty (heap s c)) (currentValue (heap s c)) nextValue)
       (\<lambda>d. if d then modify (store c nextValue) else ret Undefined) s"

text \<open>
  The \<open>try\<close> block up to \<open>const nextValue = compute($computed, fn, $computed)\<close>, and
  the whole block.
\<close>

definition rerun :: "recur \<Rightarrow> nat \<Rightarrow> val action" where
  "rerun rec c =
     andThen (disposeChildren rec c)
       (\<lambda>_. andThen (runDisposal rec c)
          (\<lambda>_. andThen (modify (clearErrors c))
             (\<lambda>_ s. compute rec (Some c) (fn (heap s c)) (Some c) s)))"

definition recompute :: "recur \<Rightarrow> nat \<Rightarrow> val action" where
  "recompute rec c = andThen (rerun rec c) (\<lambda>nextValue. compare rec c nextValue)"

text \<open>The two lines after the \<open>try\<close> statement: \<open>init = true; $computed[DIRTY] = false\<close>.\<close>

definition settle :: "nat \<Rightarrow> state \<Rightarrow> state" where
  "settle c s = update c (\<lambda>x. x\<lparr>init := True, DIRTY := False\<rparr>) s"

text \<open>
  The call \<open>$computed()\<close>. The cycle check throws before the \<open>try\<close> statement. The
  \<open>catch\<close> block calls \<open>handleError($computed, error)\<close> and, when that returns, returns
  \<open>!init ? options?.fallback : currentValue\<close>.
\<close>

definition computed_read :: "recur \<Rightarrow> nat \<Rightarrow> val action" where
  "computed_read rec c s =
     (if DEV s \<and> c \<in> set (computeStack s) then throw (ErrorObj (cyclicMessage s)) s
      else
        let s2 = track c s
        in if DIRTY (heap s2 c) \<and> \<not> DISPOSED (heap s2 c)
           then (case recompute rec c s2 of
                   (Inl (Thrown error), s3) \<Rightarrow>
                     andThen (handleError rec (Some c) error)
                       (\<lambda>_ t. (Inr (if \<not> init (heap t c) then fallback (heap t c)
                                     else currentValue (heap t c)), t)) s3
                 | (Inl OutOfFuel, s3) \<Rightarrow> (Inl OutOfFuel, s3)
                 | (Inr _, s3) \<Rightarrow> (Inr (currentValue (heap (settle c s3) c)), settle c s3))
           else (Inr (currentValue (heap s2 c)), s2))"

text \<open>
  The function that \<open>effect\<close> passes to \<open>computed\<close>:
  \<open>() => { effectResult = fn(); effectResult && currentScope && onDispose(effectResult) }\<close>.
\<close>

definition effectFn :: "recur \<Rightarrow> val \<Rightarrow> val action" where
  "effectFn rec f =
     andThen (rec (Invoke f []))
       (\<lambda>r. andThen (modify (\<lambda>s. s\<lparr>effectResult := r\<rparr>))
          (\<lambda>_ s. if truthy (effectResult s) \<and> currentScope s \<noteq> None
                  then andThen (onDispose (effectResult s)) (\<lambda>_. ret Undefined) s
                  else ret Undefined s))"

text \<open>
  \<open>effect(fn, options)\<close>: the options are
  \<open>__DEV__ ? { id: options?.id ?? 'effect', fallback: null } : undefined\<close>.
\<close>

definition effect :: "recur \<Rightarrow> val \<Rightarrow> string option \<Rightarrow> val action" where
  "effect rec f oid s =
     andThen (computed (EffectFn f)
                (if DEV s then Some (case oid of None \<Rightarrow> ''effect'' | Some i \<Rightarrow> i) else None)
                None
                (if DEV s then Some Null else None))
       (\<lambda>e. andThen (computed_read rec e) (\<lambda>_. ret (Disposer e))) s"

subsection \<open>\<open>root\<close>, \<open>peek\<close>, \<open>untrack\<close>, \<open>readonly\<close>, \<open>tick\<close>, \<open>getScope\<close>, context\<close>

text \<open>
  \<open>root(init)\<close>: \<open>$root\<close> is the object \<open>{ [SCOPE]: currentScope, [CHILDREN]: null }\<close> and
  the result is \<open>compute($root, () => init(() => dispose($root)), null)\<close>.
\<close>

definition root :: "recur \<Rightarrow> val \<Rightarrow> val action" where
  "root rec init_fn s =
     (let (r, s1) = alloc (blank\<lparr>SCOPE := currentScope s, CHILDREN := None\<rparr>) s
      in compute rec (Some r) (Invoke init_fn [Disposer r]) None s1)"

text \<open>\<open>peek\<close> and \<open>untrack\<close> restore their slot after the call, without a \<open>finally\<close>.\<close>

definition peek :: "recur \<Rightarrow> val \<Rightarrow> val action" where
  "peek rec f s =
     (let prev = currentObserver s
      in andThen (rec (Invoke f []))
           (\<lambda>result. andThen (modify (\<lambda>t. t\<lparr>currentObserver := prev\<rparr>)) (\<lambda>_. ret result))
           (s\<lparr>currentObserver := None\<rparr>))"

definition untrack :: "recur \<Rightarrow> val \<Rightarrow> val action" where
  "untrack rec f s =
     (let prev = currentScope s
      in andThen (peek rec f)
           (\<lambda>result. andThen (modify (\<lambda>t. t\<lparr>currentScope := prev\<rparr>)) (\<lambda>_. ret result))
           (s\<lparr>currentScope := None\<rparr>))"

definition readonly :: "val \<Rightarrow> val action" where
  "readonly ob s =
     (let (n, s1) = alloc (blank\<lparr>kind := Readonly ob, OBSERVABLE := True\<rparr>) s
      in (Inr (Ref n), s1))"

text \<open>
  \<open>tick()\<close>: \<open>scheduler.flush(); return scheduler.tick\<close>, where \<open>scheduler.tick\<close> is the
  tick counter of the spec.
\<close>

definition tick :: "recur \<Rightarrow> val action" where
  "tick rec = andThen (flush rec) (\<lambda>_ s. (Inr (Number (int (tickCount s))), s))"

definition refOrNull :: "nat option \<Rightarrow> val" where
  "refOrNull n = (case n of None \<Rightarrow> Null | Some k \<Rightarrow> Ref k)"

text \<open>
  \<open>getScope(fn?)\<close>: \<open>!arguments.length ? currentScope : fn?.[SCOPE]\<close>. An absent scope
  of a node is given as \<open>null\<close>.
\<close>

definition getScope :: "val list \<Rightarrow> state \<Rightarrow> val" where
  "getScope args s =
     (case args of
        [] \<Rightarrow> refOrNull (currentScope s)
      | f # _ \<Rightarrow> (case f of Ref n \<Rightarrow> refOrNull (SCOPE (heap s n)) | _ \<Rightarrow> Undefined))"

definition getContext :: "string \<Rightarrow> val action" where
  "getContext k s =
     (case lookup s (currentScope s) (Key k) of
        None \<Rightarrow> (Inl OutOfFuel, s)
      | Some (Some (Entry v)) \<Rightarrow> ret v s
      | Some _ \<Rightarrow> ret Undefined s)"

definition setContext :: "string \<Rightarrow> val \<Rightarrow> val action" where
  "setContext k v s =
     (case currentScope s of
        None \<Rightarrow> ret Undefined s
      | Some scope \<Rightarrow>
          modify (update scope
            (\<lambda>x. x\<lparr>CONTEXT := Some ((orEmpty (CONTEXT x))
                     \<lparr>entries := (entries (orEmpty (CONTEXT x)))(k := v)\<rparr>)\<rparr>)) s)"

section \<open>User code\<close>

text \<open>
  The functions a client passes to the engine are expressions over their arguments
  (\<open>Arg\<close>), the client's variables (\<open>Var\<close>, \<open>Assign\<close>), calls (\<open>App\<close>), \<open>throw\<close> and
  probes. \<open>Probe k es\<close> is a call of the mock function number \<open>k\<close>: it appends
  \<open>(k, arguments)\<close> to \<open>calls\<close> and returns \<open>undefined\<close>. \<open>Plus\<close> adds two numbers
  (for other operands the scenarios never use it; the model then gives \<open>undefined\<close>).
  A function returns the value of its expression.
\<close>

datatype expr =
    Lit val
  | Arg nat
  | Var nat
  | Assign nat expr
  | Seq expr expr
  | Plus expr expr
  | Throw expr
  | Probe nat "expr list"
  | App expr "expr list"

type_synonym program = "nat \<Rightarrow> expr"

definition arg :: "nat \<Rightarrow> val list \<Rightarrow> val" where
  "arg i args = (if i < length args then args ! i else Undefined)"

fun plus_val :: "val \<Rightarrow> val \<Rightarrow> val" where
  "plus_val (Number a) (Number b) = Number (a + b)"
| "plus_val _ _ = Undefined"

fun eval :: "recur \<Rightarrow> val list \<Rightarrow> expr \<Rightarrow> val action"
  and evals :: "recur \<Rightarrow> val list \<Rightarrow> expr list \<Rightarrow> (val list) action" where
  "eval rec args (Lit v) = ret v"
| "eval rec args (Arg i) = ret (arg i args)"
| "eval rec args (Var x) = (\<lambda>s. (Inr (vars s x), s))"
| "eval rec args (Assign x e) =
     andThen (eval rec args e) (\<lambda>v s. (Inr v, s\<lparr>vars := (vars s)(x := v)\<rparr>))"
| "eval rec args (Seq a b) = andThen (eval rec args a) (\<lambda>_. eval rec args b)"
| "eval rec args (Plus a b) =
     andThen (eval rec args a) (\<lambda>x. andThen (eval rec args b) (\<lambda>y. ret (plus_val x y)))"
| "eval rec args (Throw e) = andThen (eval rec args e) throw"
| "eval rec args (Probe k es) =
     andThen (evals rec args es) (\<lambda>vs s. (Inr Undefined, s\<lparr>calls := calls s @ [(k, vs)]\<rparr>))"
| "eval rec args (App f es) =
     andThen (eval rec args f) (\<lambda>fv. andThen (evals rec args es) (\<lambda>vs. rec (Invoke fv vs)))"
| "evals rec args [] = ret []"
| "evals rec args (e # es) =
     andThen (eval rec args e) (\<lambda>v. andThen (evals rec args es) (\<lambda>vs. ret (v # vs)))"

section \<open>Calls\<close>

definition notAFunction :: val where
  "notAFunction = ErrorObj ''TypeError: not a function''"

text \<open>
  \<open>dispose(fn)\<close> for an arbitrary argument: on a node it is \<open>dispose\<close>; on a function
  that is not a node it only sets properties that nothing reads; on anything else the
  property accesses throw.
\<close>

definition disposeValue :: "recur \<Rightarrow> val \<Rightarrow> val action" where
  "disposeValue rec f =
     (case f of
        Ref n \<Rightarrow> dispose rec n
      | Fn k \<Rightarrow> ret Undefined
      | Disposer n \<Rightarrow> ret Undefined
      | Handle d n \<Rightarrow> ret Undefined
      | NOOP \<Rightarrow> ret Undefined
      | Api a \<Rightarrow> ret Undefined
      | _ \<Rightarrow> throw (ErrorObj ''TypeError''))"

definition apiCall :: "recur \<Rightarrow> api \<Rightarrow> val list \<Rightarrow> val action" where
  "apiCall rec a args s =
     (case a of
        ROOT \<Rightarrow> root rec (arg 0 args) s
      | PEEK \<Rightarrow> peek rec (arg 0 args) s
      | UNTRACK \<Rightarrow> untrack rec (arg 0 args) s
      | OBSERVABLE_FN oid dirty \<Rightarrow> andThen (observable (arg 0 args) oid dirty) (\<lambda>n. ret (Ref n)) s
      | SET \<Rightarrow>
          (case arg 0 args of
             Ref n \<Rightarrow> if kind (heap s n) = Observable then observable_set rec n (arg 1 args) s
                      else throw notAFunction s
           | _ \<Rightarrow> throw notAFunction s)
      | NEXT \<Rightarrow>
          (case arg 0 args of
             Ref n \<Rightarrow> if kind (heap s n) = Observable then observable_next rec n (arg 1 args) s
                      else throw notAFunction s
           | _ \<Rightarrow> throw notAFunction s)
      | IS_OBSERVABLE \<Rightarrow> ret (Boolean (isObservable (arg 0 args) s)) s
      | COMPUTED_FN oid dirty fb \<Rightarrow>
          andThen (computed (Invoke (arg 0 args) []) oid dirty fb) (\<lambda>n. ret (Ref n)) s
      | EFFECT_FN oid \<Rightarrow> effect rec (arg 0 args) oid s
      | READONLY \<Rightarrow> readonly (arg 0 args) s
      | TICK \<Rightarrow> tick rec s
      | IS_SUBJECT \<Rightarrow> ret (Boolean (isSubject (arg 0 args) s)) s
      | GET_SCOPE \<Rightarrow> ret (getScope args s) s
      | GET_CONTEXT k \<Rightarrow> getContext k s
      | SET_CONTEXT k \<Rightarrow> setContext k (arg 0 args) s
      | ON_ERROR \<Rightarrow> onError (arg 0 args) s
      | ON_DISPOSE \<Rightarrow> onDispose (arg 0 args) s
      | DISPOSE_FN \<Rightarrow> disposeValue rec (arg 0 args) s)"

text \<open>Calling a value \<open>f(args)\<close>.\<close>

definition call :: "program \<Rightarrow> recur \<Rightarrow> val \<Rightarrow> val list \<Rightarrow> val action" where
  "call P rec f args s =
     (case f of
        Fn k \<Rightarrow> eval rec args (P k) s
      | Ref n \<Rightarrow>
          (case kind (heap s n) of
             Observable \<Rightarrow> observable_read n s
           | Computed \<Rightarrow> computed_read rec n s
           | Readonly ob \<Rightarrow> rec (Invoke ob []) s
           | Plain \<Rightarrow> throw notAFunction s)
      | Disposer n \<Rightarrow> dispose rec n s
      | Handle d scope \<Rightarrow> callHandle rec d scope s
      | NOOP \<Rightarrow> ret Undefined s
      | Api a \<Rightarrow> apiCall rec a args s
      | _ \<Rightarrow> throw notAFunction s)"

definition step :: "program \<Rightarrow> recur \<Rightarrow> request \<Rightarrow> val action" where
  "step P rec r =
     (case r of
        Invoke f args \<Rightarrow> call P rec f args
      | Dispose n \<Rightarrow> dispose rec n
      | HandleError node error \<Rightarrow> handleError rec node error
      | EffectFn f \<Rightarrow> effectFn rec f
      | Drain \<Rightarrow> drain rec)"

text \<open>
  \<open>run P n r\<close> performs request \<open>r\<close> with at most \<open>n\<close> nested re-entries.
\<close>

primrec run :: "program \<Rightarrow> nat \<Rightarrow> recur" where
  "run P 0 r = (\<lambda>s. (Inl OutOfFuel, s))"
| "run P (Suc n) r = step P (run P n) r"

section \<open>Client programs\<close>

text \<open>Call sites of the exported functions, for writing the scenarios.\<close>

definition observableE :: "expr \<Rightarrow> expr" where
  "observableE e = App (Lit (Api (OBSERVABLE_FN None None))) [e]"

definition computedE :: "expr \<Rightarrow> expr" where
  "computedE f = App (Lit (Api (COMPUTED_FN None None None))) [f]"

definition effectE :: "expr \<Rightarrow> expr" where
  "effectE f = App (Lit (Api (EFFECT_FN None))) [f]"

definition setE :: "expr \<Rightarrow> expr \<Rightarrow> expr" where
  "setE a e = App (Lit (Api SET)) [a, e]"

definition rootE :: "expr \<Rightarrow> expr" where
  "rootE f = App (Lit (Api ROOT)) [f]"

definition disposeE :: "expr \<Rightarrow> expr" where
  "disposeE f = App (Lit (Api DISPOSE_FN)) [f]"

definition onErrorE :: "expr \<Rightarrow> expr" where
  "onErrorE f = App (Lit (Api ON_ERROR)) [f]"

definition onDisposeE :: "expr \<Rightarrow> expr" where
  "onDisposeE f = App (Lit (Api ON_DISPOSE)) [f]"

definition getScopeE :: expr where
  "getScopeE = App (Lit (Api GET_SCOPE)) []"

definition noProgram :: program where
  "noProgram = (\<lambda>_. Lit Undefined)"

text \<open>
  Scenario 1 of the spec. Function 0 is the script, function 1 the body of \<open>$c\<close>:
  \<^verbatim>\<open>
  $a = observable(10); $b = observable(10); $c = computed(() => $a() + $b());
  probe0($c()); $a.set(20); probe1($c());
  \<close>
\<close>

definition pullProgram :: program where
  "pullProgram = noProgram
    (0 := Seq (Assign 0 (observableE (Lit (Number 10))))
         (Seq (Assign 1 (observableE (Lit (Number 10))))
         (Seq (Assign 2 (computedE (Lit (Fn 1))))
         (Seq (Probe 0 [App (Var 2) []])
         (Seq (setE (Var 0) (Lit (Number 20)))
              (Probe 1 [App (Var 2) []]))))),
     1 := Plus (App (Var 0) []) (App (Var 1) []))"

text \<open>
  A derivation \<open>$c\<close> (node 1) with an observer \<open>$d\<close> (node 2), dirty after a write:
  \<^verbatim>\<open>
  $a = observable(10); $c = computed(() => $a()); $d = computed(() => $c());
  $d(); $a.set(20);
  \<close>
\<close>

definition recomputeProgram :: program where
  "recomputeProgram = noProgram
    (0 := Seq (Assign 0 (observableE (Lit (Number 10))))
         (Seq (Assign 1 (computedE (Lit (Fn 1))))
         (Seq (Assign 2 (computedE (Lit (Fn 2))))
         (Seq (App (Var 2) [])
              (setE (Var 0) (Lit (Number 20)))))),
     1 := App (Var 0) [],
     2 := App (Var 1) [])"

definition recomputeState :: state where
  "recomputeState = snd (run recomputeProgram 10 (Invoke (Fn 0) []) (initial True))"

text \<open>
  The same graph where \<open>$c\<close> has a dirty predicate of its own, which reports a change
  exactly when the new value is truthy, and the write stores 0:
  \<^verbatim>\<open>
  $a = observable(10); $c = computed(() => $a(), { dirty: (prev, next) => next });
  $d = computed(() => $c()); $d(); $a.set(0);
  \<close>
\<close>

definition customProgram :: program where
  "customProgram = noProgram
    (0 := Seq (Assign 0 (observableE (Lit (Number 10))))
         (Seq (Assign 1 (App (Lit (Api (COMPUTED_FN None (Some (Fn 3)) None))) [Lit (Fn 1)]))
         (Seq (Assign 2 (computedE (Lit (Fn 2))))
         (Seq (App (Var 2) [])
              (setE (Var 0) (Lit (Number 0)))))),
     1 := App (Var 0) [],
     2 := App (Var 1) [],
     3 := Arg 1)"

definition customState :: state where
  "customState = snd (run customProgram 10 (Invoke (Fn 0) []) (initial True))"

text \<open>
  Scenario 3 of the spec (function 0); function 3 only creates the two derivations:
  \<^verbatim>\<open>
  $a = computed(() => $b()); $b = computed(() => $a()); $b();
  \<close>
\<close>

definition cycleProgram :: program where
  "cycleProgram = noProgram
    (0 := Seq (Assign 0 (computedE (Lit (Fn 1))))
         (Seq (Assign 1 (computedE (Lit (Fn 2))))
              (App (Var 1) [])),
     1 := App (Var 1) [],
     2 := App (Var 0) [],
     3 := Seq (Assign 0 (computedE (Lit (Fn 1))))
              (Assign 1 (computedE (Lit (Fn 2)))))"


text \<open>
  The state in which the body of a derivation \<open>c\<close> starts when \<open>c\<close> is read in state
  \<open>s\<close>: after the head of \<open>$computed\<close> (\<open>track\<close>) and the assignments of \<open>compute\<close>
  before its \<open>try\<close> (see \<open>body_runs_in_entered\<close> below).
\<close>

definition entered :: "nat \<Rightarrow> state \<Rightarrow> state" where
  "entered c s =
     (let t = track c s
      in pushCompute c (t\<lparr>prevScope := currentScope t, prevObserver := currentObserver t,
                          currentScope := Some c, currentObserver := Some c\<rparr>))"


definition cycleText :: string where
  "cycleText = ''cyclic dependency detected'' @ [CHR 0x0A, CHR 0x0A]
              @ ''computed --> computed'' @ [CHR 0x0A]"


text \<open>
  An error handler on a root, and an effect under that root whose body throws; the
  handler records its argument and throws it again:
  \<^verbatim>\<open>
  root(() => { onError((e) => { probe0(e); throw e; });
               effect(() => { throw 'boom'; }); });
  \<close>
\<close>

definition handlerProgram :: program where
  "handlerProgram = noProgram
    (0 := rootE (Lit (Fn 1)),
     1 := Seq (onErrorE (Lit (Fn 2))) (effectE (Lit (Fn 3))),
     2 := Seq (Probe 0 [Arg 0]) (Throw (Arg 0)),
     3 := Throw (Lit (Str ''boom'')))"

text \<open>
  A disposed source read inside a derivation:
  \<^verbatim>\<open>
  $a = observable(10); dispose($a); $c = computed(() => $a()); $c();
  \<close>
  and a root that disposes itself and then creates a node and registers a callback:
  \<^verbatim>\<open>
  root((dispose) => { dispose(); observable(1); return onDispose(() => probe0()); });
  \<close>
\<close>

definition disposedProgram :: program where
  "disposedProgram = noProgram
    (0 := Seq (Assign 0 (observableE (Lit (Number 10))))
         (Seq (disposeE (Var 0))
         (Seq (Assign 1 (computedE (Lit (Fn 1))))
              (App (Var 1) []))),
     1 := App (Var 0) [])"

definition disposedRootProgram :: program where
  "disposedRootProgram = noProgram
    (0 := rootE (Lit (Fn 1)),
     1 := Seq (App (Arg 0) [])
         (Seq (observableE (Lit (Number 1)))
              (onDisposeE (Lit (Fn 2)))),
     2 := Probe 0 [])"

text \<open>
  Scenario 6 of the spec, under a root. Function 2 is the effect's body, function 3 the
  cleanup it returns; probe 1 counts the runs of the body, probe 0 the calls of the
  cleanup:
  \<^verbatim>\<open>
  root(() => { $a = observable(10);
               stop = effect(() => { probe1(); $a(); return cleanup; }); });
  \<close>
  The root is node 0, \<open>$a\<close> node 1 and the effect node 2.
\<close>

definition cleanupProgram :: program where
  "cleanupProgram = noProgram
    (0 := rootE (Lit (Fn 1)),
     1 := Seq (Assign 0 (observableE (Lit (Number 10))))
              (Assign 1 (effectE (Lit (Fn 2)))),
     2 := Seq (Probe 1 []) (Seq (App (Var 0) []) (Lit (Fn 3))),
     3 := Probe 0 [])"

text \<open>\<open>$a.set(v); tick()\<close>, and a sequence of such rounds.\<close>

definition writeAndFlush :: "val \<Rightarrow> state \<Rightarrow> state option" where
  "writeAndFlush v s =
     (case run cleanupProgram 10 (Invoke (Api SET) [Ref 1, v]) s of
        (Inr _, s1) \<Rightarrow>
          (case run cleanupProgram 10 (Invoke (Api TICK) []) s1 of
             (Inr _, s2) \<Rightarrow> Some s2
           | (Inl _, _) \<Rightarrow> None)
      | (Inl _, _) \<Rightarrow> None)"

fun writes :: "val list \<Rightarrow> state \<Rightarrow> state option" where
  "writes [] s = Some s"
| "writes (v # vs) s = (case writeAndFlush v s of None \<Rightarrow> None | Some s' \<Rightarrow> writes vs s')"

text \<open>Every written value differs from the value stored before it, so every write notifies.\<close>

fun changing :: "val \<Rightarrow> val list \<Rightarrow> bool" where
  "changing v [] = True"
| "changing v (w # ws) = (w \<noteq> v \<and> changing w ws)"

definition countCalls :: "nat \<Rightarrow> state \<Rightarrow> nat" where
  "countCalls k s = length (filter (\<lambda>c. fst c = k) (calls s))"

text \<open>
  The state between two rounds: the source holds \<open>v\<close> and has the effect as its only
  observer; the effect is clean and holds the cleanup in its own \<open>DISPOSAL\<close> set; nothing
  is pending; the cleanup has been called \<open>k\<close> times and the body \<open>k + 1\<close> times.
\<close>

definition primed :: "val \<Rightarrow> nat \<Rightarrow> state \<Rightarrow> bool" where
  "primed v k s =
     (kind (heap s 1) = Observable \<and> \<not> DISPOSED (heap s 1) \<and> isDirty (heap s 1) = None
      \<and> currentValue (heap s 1) = v \<and> OBSERVERS (heap s 1) = Some [2]
      \<and> kind (heap s 2) = Computed \<and> fn (heap s 2) = EffectFn (Fn 2)
      \<and> isDirty (heap s 2) = None \<and> currentValue (heap s 2) = Undefined
      \<and> \<not> DIRTY (heap s 2) \<and> \<not> DISPOSED (heap s 2) \<and> CHILDREN (heap s 2) = None
      \<and> DISPOSAL (heap s 2) = Some [Fn 3] \<and> CONTEXT (heap s 2) = None
      \<and> OBSERVERS (heap s 2) = None \<and> SCOPE (heap s 2) = Some 0
      \<and> DISPOSAL (heap s 0) = None
      \<and> vars s 0 = Ref 1 \<and> vars s 1 = Disposer 2
      \<and> currentScope s = None \<and> currentObserver s = None
      \<and> pending s = [] \<and> computeStack s = []
      \<and> countCalls 0 s = k \<and> countCalls 1 s = Suc k)"

text \<open>
  An effect whose body reads the source and a derivation of a derivation of it, and
  returns the cleanup; the script then stops the effect. Probe 1 counts the runs of
  the body, probe 0 the calls of the cleanup; the effect is node 3:
  \<^verbatim>\<open>
  $a = observable(10); $d = computed(() => $a()); $e = computed(() => $d());
  stop = effect(() => { probe1(); $a(); $e(); return cleanup; });
  stop();
  \<close>
\<close>

definition deepProgram :: program where
  "deepProgram = noProgram
    (0 := Seq (Assign 0 (observableE (Lit (Number 10))))
         (Seq (Assign 1 (computedE (Lit (Fn 1))))
         (Seq (Assign 2 (computedE (Lit (Fn 2))))
         (Seq (Assign 3 (effectE (Lit (Fn 3))))
              (App (Var 3) [])))),
     1 := App (Var 0) [],
     2 := App (Var 1) [],
     3 := Seq (Probe 1 []) (Seq (App (Var 0) []) (Seq (App (Var 2) []) (Lit (Fn 4)))),
     4 := Probe 0 [])"

text \<open>
  Two derivations under a root, the second reading the first, and the current scope
  probed before and after the read of the second:
  \<^verbatim>\<open>
  root(() => { $a = computed(() => 1); $b = computed(() => $a());
               probe0(getScope()); $b(); probe1(getScope()); });
  \<close>
\<close>

definition nestedProgram :: program where
  "nestedProgram = noProgram
    (0 := rootE (Lit (Fn 1)),
     1 := Seq (Assign 0 (computedE (Lit (Fn 2))))
         (Seq (Assign 1 (computedE (Lit (Fn 3))))
         (Seq (Probe 0 [getScopeE])
         (Seq (App (Var 1) [])
              (Probe 1 [getScopeE])))),
     2 := Lit (Number 1),
     3 := App (Var 0) [])"

text \<open>
  A source with an observer, disposed:
  \<^verbatim>\<open>
  $a = observable(10); $c = computed(() => $a()); $c(); dispose($a);
  \<close>
\<close>

definition writeDisposedProgram :: program where
  "writeDisposedProgram = noProgram
    (0 := Seq (Assign 0 (observableE (Lit (Number 10))))
         (Seq (Assign 1 (computedE (Lit (Fn 1))))
         (Seq (App (Var 1) [])
              (disposeE (Var 0)))),
     1 := App (Var 0) [])"

definition writeDisposedState :: state where
  "writeDisposedState = snd (run writeDisposedProgram 10 (Invoke (Fn 0) []) (initial True))"

text \<open>The values that \<open>call\<close> accepts as functions.\<close>

definition callable :: "val \<Rightarrow> state \<Rightarrow> bool" where
  "callable f s =
     (case f of
        Fn k \<Rightarrow> True
      | Ref n \<Rightarrow> kind (heap s n) \<noteq> Plain
      | Disposer n \<Rightarrow> True
      | Handle d n \<Rightarrow> True
      | NOOP \<Rightarrow> True
      | Api a \<Rightarrow> True
      | _ \<Rightarrow> False)"

section \<open>Evaluation\<close>

lemma run_numeral: "run P (numeral k) r = step P (run P (pred_numeral k)) r"
  by (simp add: numeral_eq_Suc)

lemmas monad_defs =
  ret_def throw_def modify_def andThen_def tryCatch_def tryFinally_def

lemmas set_defs =
  add_def delete_def hasSize_def members_def

lemmas engine_defs =
  update_def alloc_def enqueue_def drain_def onFlush_def flush_def pushCall_def
  pushCompute_def popCompute_def cyclicMessage_def compute_def ctxGet_def adopt_def
  notify_def notEqual_def dirtyOption_def callIsDirty_def track_def observable_def
  observable_read_def observable_set_def observable_next_def isObservable_def isSubject_def
  onDispose_def callHandle_def dispose_def emptyCtx_def orEmpty_def onError_def
  handleError_def computed_def disposeChildren_def runDisposal_def clearErrors_def store_def
  compare_def rerun_def recompute_def settle_def computed_read_def effectFn_def effect_def
  root_def peek_def untrack_def readonly_def tick_def refOrNull_def getScope_def
  getContext_def setContext_def arg_def notAFunction_def disposeValue_def apiCall_def
  call_def step_def DEV_def callStack_def computeStack_def blank_def initial_def

lemmas client_defs =
  observableE_def computedE_def effectE_def setE_def rootE_def disposeE_def onErrorE_def
  onDisposeE_def getScopeE_def noProgram_def

text \<open>
  \<open>symbolic\<close> unfolds the engine on a state that is only partly known; \<open>evaluate\<close> also
  unfolds \<open>lookup\<close>, for runs from a concrete state.
\<close>

lemmas symbolic = monad_defs set_defs engine_defs client_defs run_numeral Let_def

lemmas evaluate = symbolic lookup.simps

subsection \<open>Frame facts of \<open>update\<close>, \<open>enqueue\<close> and \<open>notify\<close>\<close>

lemma heap_update: "heap (update n f s) m = (if m = n then f (heap s n) else heap s m)"
  by (simp add: update_def)

lemma pending_update: "pending (update n f s) = pending s"
  by (simp add: update_def)

lemma heap_enqueue: "heap (enqueue n s) = heap s"
  by (simp add: enqueue_def)

lemma pending_enqueue: "pending (enqueue n s) = add n (pending s)"
  by (simp add: enqueue_def)

lemmas frame = heap_update pending_update heap_enqueue pending_enqueue

lemma notifyEach_DISPOSED:
  "DISPOSED (heap (notifyEach n obs s) m) = DISPOSED (heap s m)"
  by (induction obs arbitrary: s) (simp_all add: frame)

lemma notifyEach_currentValue:
  "currentValue (heap (notifyEach n obs s) m) = currentValue (heap s m)"
  by (induction obs arbitrary: s) (simp_all add: frame)

lemma notifyEach_DIRTY_mono:
  "DIRTY (heap s m) \<Longrightarrow> DIRTY (heap (notifyEach n obs s) m)"
proof (induction obs arbitrary: s)
  case Nil
  then show ?case by simp
next
  case (Cons x xs)
  show ?case unfolding notifyEach.simps
    by (rule Cons.IH) (use Cons.prems in \<open>auto simp add: frame\<close>)
qed

lemma notifyEach_pending_mono:
  "m \<in> set (pending s) \<Longrightarrow> m \<in> set (pending (notifyEach n obs s))"
proof (induction obs arbitrary: s)
  case Nil
  then show ?case by simp
next
  case (Cons x xs)
  show ?case unfolding notifyEach.simps
    by (rule Cons.IH) (use Cons.prems in \<open>auto simp add: frame add_def\<close>)
qed

text \<open>Every observer in the walked set that is not disposed ends up dirty and pending.\<close>

lemma notifyEach_marks:
  "ob \<in> set obs \<Longrightarrow> \<not> DISPOSED (heap s ob) \<Longrightarrow>
     DIRTY (heap (notifyEach n obs s) ob) \<and> ob \<in> set (pending (notifyEach n obs s))"
proof (induction obs arbitrary: s)
  case Nil
  then show ?case by simp
next
  case (Cons x xs)
  let ?s = "if DISPOSED (heap s x)
        then update n (\<lambda>y. y\<lparr>OBSERVERS := map_option (delete x) (OBSERVERS y)\<rparr>) s
        else enqueue x (update x (\<lambda>y. y\<lparr>DIRTY := True\<rparr>) s)"
  have live: "\<not> DISPOSED (heap ?s ob)"
    using Cons.prems(2) by (auto simp add: frame)
  show ?case
  proof (cases "ob = x")
    case True
    with Cons.prems(2) have "DIRTY (heap ?s ob)" and "ob \<in> set (pending ?s)"
      by (simp_all add: frame add_def)
    then show ?thesis
      unfolding notifyEach.simps
      by (simp add: notifyEach_DIRTY_mono notifyEach_pending_mono)
  next
    case False
    with Cons.prems(1) have "ob \<in> set xs" by simp
    then show ?thesis
      unfolding notifyEach.simps using Cons.IH live by simp
  qed
qed

lemma store_currentValue: "currentValue (heap (store c v s) c) = v"
  by (simp add: store_def notify_def Let_def notifyEach_currentValue frame)

lemma store_marks:
  assumes "ob \<in> set (members (OBSERVERS (heap s c)))" and "\<not> DISPOSED (heap s ob)"
  shows "DIRTY (heap (store c v s) ob) \<and> ob \<in> set (pending (store c v s))"
proof -
  let ?s1 = "update c (\<lambda>x. x\<lparr>currentValue := v\<rparr>) s"
  have obs: "OBSERVERS (heap ?s1 c) = OBSERVERS (heap s c)" by (simp add: update_def)
  from assms(1) have "hasSize (OBSERVERS (heap s c))"
    by (cases "OBSERVERS (heap s c)") (auto simp add: hasSize_def members_def)
  then have "store c v s = notifyEach c (members (OBSERVERS (heap s c))) ?s1"
    by (simp add: store_def notify_def Let_def obs)
  moreover have "\<not> DISPOSED (heap ?s1 ob)" using assms(2) by (auto simp add: frame)
  ultimately show ?thesis using notifyEach_marks [OF assms(1), of ?s1 c] by simp
qed

section \<open>Pull-on-read\<close>

text \<open>
  Claim C1. With \<open>$a\<close> and \<open>$b\<close> created with value 10 and
  \<open>$c = computed(() => $a() + $b())\<close>, the first read \<open>$c()\<close> returns 20, and after
  \<open>$a.set(20)\<close> the next read \<open>$c()\<close> returns 30, in the same synchronous run: the
  scheduler has not flushed (the tick counter is still 0 and \<open>$c\<close>, node 2, is still
  pending). This holds in development and in production builds.
\<close>

theorem pull_on_read:
  "(case run pullProgram 10 (Invoke (Fn 0) []) (initial dev) of
      (r, s) \<Rightarrow> r = Inr Undefined
        \<and> calls s = [(0, [Number 20]), (1, [Number 30])]
        \<and> tickCount s = 0 \<and> pending s = [2])"
  by (cases dev) (simp_all add: pullProgram_def evaluate)

section \<open>Recomputation of a dirty derivation\<close>

text \<open>
  Claim C2. Let a derivation \<open>c\<close> that is dirty and not disposed be read and let its
  body run to a value \<open>nextValue\<close> (state \<open>s1\<close>). Let \<open>changed\<close> be what the derivation's
  dirty predicate reports for the stored value and \<open>nextValue\<close>: when the derivation has
  a predicate \<open>f\<close> of its own, the truthiness of the result of the call
  \<open>f(currentValue, nextValue)\<close>, made in state \<open>s1\<close> and ending in state \<open>s2\<close>; when it
  has none, whether the two values differ (and \<open>s2 = s1\<close>). Then the read returns the
  value stored at the end and the derivation's \<open>DIRTY\<close> flag is clear. If \<open>changed\<close>,
  the stored value is \<open>nextValue\<close> and every observer in the derivation's set that is
  not disposed is dirty and pending (\<open>notify\<close> drops the disposed ones from the set
  instead). If not \<open>changed\<close>, the stored value and the pending queue are as they
  were, and no other node has changed.
\<close>

theorem recompute_stores_on_change:
  assumes "c \<notin> set (computeStack s)"
    and "DIRTY (heap s c)" and "\<not> DISPOSED (heap s c)"
    and "rerun rec c (track c s) = (Inr nextValue, s1)"
    and "case isDirty (heap s1 c) of
           None \<Rightarrow> s2 = s1 \<and> changed = (currentValue (heap s1 c) \<noteq> nextValue)
         | Some f \<Rightarrow> \<exists>r. rec (Invoke f [currentValue (heap s1 c), nextValue]) s1 = (Inr r, s2)
                         \<and> changed = truthy r"
  shows "\<exists>s'. computed_read rec c s = (Inr (currentValue (heap s' c)), s')
     \<and> \<not> DIRTY (heap s' c)
     \<and> (if changed
        then currentValue (heap s' c) = nextValue
           \<and> (\<forall>ob \<in> set (members (OBSERVERS (heap s2 c))).
                 \<not> DISPOSED (heap s2 ob) \<and> ob \<noteq> c \<longrightarrow> DIRTY (heap s' ob) \<and> ob \<in> set (pending s'))
        else currentValue (heap s' c) = currentValue (heap s2 c)
           \<and> pending s' = pending s2
           \<and> (\<forall>m. m \<noteq> c \<longrightarrow> heap s' m = heap s2 m))"
proof -
  let ?t = "if changed then store c nextValue s2 else s2"
  have flags: "DIRTY (heap (track c s) c) \<and> \<not> DISPOSED (heap (track c s) c)"
    using assms(2,3)
    by (simp add: track_def pushCall_def update_def Let_def split: option.splits)
  have cmp: "callIsDirty rec (isDirty (heap s1 c)) (currentValue (heap s1 c)) nextValue s1
               = (Inr changed, s2)"
  proof (cases "isDirty (heap s1 c)")
    case None
    with assms(5) show ?thesis by (simp add: callIsDirty_def ret_def notEqual_def)
  next
    case (Some f)
    with assms(5) obtain r where
      "rec (Invoke f [currentValue (heap s1 c), nextValue]) s1 = (Inr r, s2)" "changed = truthy r"
      by auto
    with Some show ?thesis by (simp add: callIsDirty_def andThen_def ret_def)
  qed
  have rc: "recompute rec c (track c s) = (Inr Undefined, ?t)"
    using assms(4) cmp by (simp add: recompute_def compare_def andThen_def modify_def ret_def)
  have rd: "computed_read rec c s = (Inr (currentValue (heap (settle c ?t) c)), settle c ?t)"
    using assms(1) flags rc by (simp add: computed_read_def Let_def)
  have clean: "\<not> DIRTY (heap (settle c ?t) c)" by (simp add: settle_def update_def)
  have other: "\<And>m u. m \<noteq> c \<Longrightarrow> heap (settle c u) m = heap u m"
    by (simp add: settle_def update_def)
  have val: "\<And>u. currentValue (heap (settle c u) c) = currentValue (heap u c)"
    by (simp add: settle_def update_def)
  have pend: "\<And>u. pending (settle c u) = pending u"
    by (simp add: settle_def update_def)
  show ?thesis
  proof (cases changed)
    case True
    have "\<forall>ob \<in> set (members (OBSERVERS (heap s2 c))).
            \<not> DISPOSED (heap s2 ob) \<and> ob \<noteq> c \<longrightarrow>
              DIRTY (heap (settle c ?t) ob) \<and> ob \<in> set (pending (settle c ?t))"
      using True store_marks [of _ s2 c nextValue] by (simp add: other pend)
    with True rd clean show ?thesis
      by (intro exI [of _ "settle c ?t"]) (simp add: val store_currentValue)
  next
    case False
    with rd clean show ?thesis
      by (intro exI [of _ "settle c ?t"]) (simp add: val other pend)
  qed
qed

text \<open>
  The theorem at two states. At \<open>customState\<close> the derivation \<open>$c\<close> (node 1) holds 10,
  is dirty and has the predicate \<open>(prev, next) => next\<close>; its body runs to 0, the
  predicate reports no change, and the read returns 10 and leaves the observer \<open>$d\<close>
  (node 2) clean and the queue as it was. At \<open>recomputeState\<close> \<open>$c\<close> has the default
  predicate; its body runs to 20, which is stored, and \<open>$d\<close> is left dirty and pending.
\<close>

theorem recompute_stores_on_change_witness:
  "(1 \<notin> set (computeStack customState) \<and> DIRTY (heap customState 1)
    \<and> \<not> DISPOSED (heap customState 1)
    \<and> currentValue (heap customState 1) = Number 10
    \<and> isDirty (heap customState 1) = Some (Fn 3)
    \<and> \<not> DIRTY (heap customState 2)
    \<and> (\<exists>s'. computed_read (run customProgram 5) 1 customState = (Inr (Number 10), s')
          \<and> currentValue (heap s' 1) = Number 10 \<and> \<not> DIRTY (heap s' 1)
          \<and> \<not> DIRTY (heap s' 2) \<and> pending s' = pending customState))
   \<and> (1 \<notin> set (computeStack recomputeState) \<and> DIRTY (heap recomputeState 1)
    \<and> \<not> DISPOSED (heap recomputeState 1)
    \<and> currentValue (heap recomputeState 1) = Number 10
    \<and> isDirty (heap recomputeState 1) = None
    \<and> (\<exists>s'. computed_read (run recomputeProgram 5) 1 recomputeState = (Inr (Number 20), s')
          \<and> currentValue (heap s' 1) = Number 20 \<and> \<not> DIRTY (heap s' 1)
          \<and> DIRTY (heap s' 2) \<and> 2 \<in> set (pending s')))"
proof -
  define t1 where "t1 = snd (rerun (run customProgram 5) 1 (track 1 customState))"
  have g1: "1 \<notin> set (computeStack customState)"
    by (simp add: customState_def customProgram_def evaluate)
  have g2: "DIRTY (heap customState 1)"
    by (simp add: customState_def customProgram_def evaluate)
  have g3: "\<not> DISPOSED (heap customState 1)"
    by (simp add: customState_def customProgram_def evaluate)
  have gold: "currentValue (heap customState 1) = Number 10"
      "isDirty (heap customState 1) = Some (Fn 3)" "\<not> DIRTY (heap customState 2)"
    by (simp_all add: customState_def customProgram_def evaluate)
  have "fst (rerun (run customProgram 5) 1 (track 1 customState)) = Inr (Number 0)"
    by (simp add: customState_def customProgram_def evaluate)
  then have g4: "rerun (run customProgram 5) 1 (track 1 customState) = (Inr (Number 0), t1)"
    by (simp add: t1_def prod_eq_iff)
  have q: "isDirty (heap t1 1) = Some (Fn 3)" "currentValue (heap t1 1) = Number 10"
      "\<not> DIRTY (heap t1 2)" "pending t1 = pending customState"
    by (simp_all add: t1_def customState_def customProgram_def evaluate)
  have call: "run customProgram 5 (Invoke (Fn 3) [Number 10, Number 0]) t1 = (Inr (Number 0), t1)"
    by (simp add: customProgram_def evaluate)
  have g5: "case isDirty (heap t1 1) of
           None \<Rightarrow> t1 = t1 \<and> False = (currentValue (heap t1 1) \<noteq> Number 0)
         | Some f \<Rightarrow> \<exists>r. run customProgram 5 (Invoke f [currentValue (heap t1 1), Number 0]) t1 = (Inr r, t1)
                         \<and> False = truthy r"
    using q call by simp
  have custom: "\<exists>s'. computed_read (run customProgram 5) 1 customState = (Inr (Number 10), s')
          \<and> currentValue (heap s' 1) = Number 10 \<and> \<not> DIRTY (heap s' 1)
          \<and> \<not> DIRTY (heap s' 2) \<and> pending s' = pending customState"
    using q recompute_stores_on_change [OF g1 g2 g3 g4 g5] by auto
  define s1 where "s1 = snd (rerun (run recomputeProgram 5) 1 (track 1 recomputeState))"
  have h1: "1 \<notin> set (computeStack recomputeState)"
    by (simp add: recomputeState_def recomputeProgram_def evaluate)
  have h2: "DIRTY (heap recomputeState 1)"
    by (simp add: recomputeState_def recomputeProgram_def evaluate)
  have h3: "\<not> DISPOSED (heap recomputeState 1)"
    by (simp add: recomputeState_def recomputeProgram_def evaluate)
  have old: "currentValue (heap recomputeState 1) = Number 10"
      "isDirty (heap recomputeState 1) = None"
    by (simp_all add: recomputeState_def recomputeProgram_def evaluate)
  have "fst (rerun (run recomputeProgram 5) 1 (track 1 recomputeState)) = Inr (Number 20)"
    by (simp add: recomputeState_def recomputeProgram_def evaluate)
  then have h4: "rerun (run recomputeProgram 5) 1 (track 1 recomputeState) = (Inr (Number 20), s1)"
    by (simp add: s1_def prod_eq_iff)
  have p: "isDirty (heap s1 1) = None" "currentValue (heap s1 1) = Number 10"
      "OBSERVERS (heap s1 1) = Some [2]" "\<not> DISPOSED (heap s1 2)"
    by (simp_all add: s1_def recomputeState_def recomputeProgram_def evaluate)
  have h5: "case isDirty (heap s1 1) of
           None \<Rightarrow> s1 = s1 \<and> True = (currentValue (heap s1 1) \<noteq> Number 20)
         | Some f \<Rightarrow> \<exists>r. run recomputeProgram 5 (Invoke f [currentValue (heap s1 1), Number 20]) s1 = (Inr r, s1)
                         \<and> True = truthy r"
    using p by simp
  have dflt: "\<exists>s'. computed_read (run recomputeProgram 5) 1 recomputeState = (Inr (Number 20), s')
          \<and> currentValue (heap s' 1) = Number 20 \<and> \<not> DIRTY (heap s' 1)
          \<and> DIRTY (heap s' 2) \<and> 2 \<in> set (pending s')"
    using p recompute_stores_on_change [OF h1 h2 h3 h4 h5] by (auto simp add: members_def)
  show ?thesis
    using g1 g2 g3 gold custom h1 h2 h3 old dflt by simp
qed

section \<open>Cycles\<close>

text \<open>
  When a dirty derivation with nothing to clean up is read, its body runs in the
  state \<open>entered c s\<close>, inside the \<open>try\<close>/\<open>finally\<close> of \<open>compute\<close>.
\<close>

lemma body_runs_in_entered:
  assumes "DIRTY (heap s c)" and "\<not> DISPOSED (heap s c)"
    and "\<not> hasSize (CHILDREN (heap s c))" and "\<not> hasSize (DISPOSAL (heap s c))"
    and "CONTEXT (heap s c) = None"
  shows "rerun rec c (track c s) =
     tryFinally (rec (fn (heap s c)))
       (\<lambda>t. popCompute (t\<lparr>currentScope := prevScope t, currentObserver := prevObserver t,
                           prevScope := None, prevObserver := None\<rparr>))
       (entered c s)"
proof -
  have same: "CHILDREN (heap (track c s) c) = CHILDREN (heap s c)"
      "DISPOSAL (heap (track c s) c) = DISPOSAL (heap s c)"
      "CONTEXT (heap (track c s) c) = CONTEXT (heap s c)"
      "fn (heap (track c s) c) = fn (heap s c)"
    by (simp_all add: track_def pushCall_def update_def Let_def split: option.splits)
  show ?thesis
    using assms same
    by (simp add: rerun_def disposeChildren_def runDisposal_def clearErrors_def compute_def
        entered_def andThen_def modify_def ret_def Let_def)
qed




text \<open>Scenario 3 from the start, in a development build: \<open>$b()\<close> throws the error to the script.\<close>

lemma cycle_scenario:
  "fst (run cycleProgram 10 (Invoke (Fn 0) []) (initial True)) = Inl (Thrown (ErrorObj cycleText))"
  by (simp add: cycleProgram_def cycleText_def evaluate)

section \<open>Error handlers\<close>

text \<open>With no handler on the scope chain, \<open>handleError\<close> throws the error it was given.\<close>

lemma handleError_without_handler:
  "lookup s node ERROR = Some None \<Longrightarrow> handleError rec node error s = (Inl (Thrown error), s)"
  by (simp add: handleError_def throw_def)

text \<open>
  Claim C4, at \<open>handlerProgram\<close>. The handler is registered on the root and the
  effect's body throws \<open>'boom'\<close>. \<open>handleError\<close> finds the root's handler set from the
  effect and calls the handler with \<open>Error(JSON.stringify('boom'))\<close>; the handler throws;
  the \<open>catch\<close> block goes on from the parent of the throwing node, which is the root
  itself, so the same handler set is found and called a second time; only its second
  throw goes on from the root's parent and reaches the caller. The claim has the
  search go on from the parent of the scope whose handlers ran, which would call
  the handler once.
\<close>

theorem handler_set_invoked_twice:
  "(case run handlerProgram 10 (Invoke (Fn 0) []) (initial dev) of
      (r, s) \<Rightarrow> r = Inl (Thrown (JsonError (Str ''boom'')))
        \<and> calls s = [(0, [JsonError (Str ''boom'')]), (0, [JsonError (Str ''boom'')])])"
  by (cases dev) (simp_all add: handlerProgram_def evaluate)

section \<open>Disposed nodes\<close>

text \<open>
  When \<open>dispose(f)\<close> returns, \<open>f\<close> is flagged disposed and its \<open>OBSERVERS\<close>,
  \<open>DISPOSAL\<close>, \<open>CONTEXT\<close> and \<open>SCOPE\<close> properties are \<open>null\<close>, whatever the callbacks
  did.
\<close>

lemma dispose_clears:
  assumes "dispose rec f s = (Inr v, s')"
  shows "DISPOSED (heap s' f) \<and> OBSERVERS (heap s' f) = None \<and> DISPOSAL (heap s' f) = None
         \<and> CONTEXT (heap s' f) = None \<and> SCOPE (heap s' f) = None"
  using assms
  by (auto simp add: dispose_def andThen_def modify_def ret_def Let_def update_def
      split: prod.splits sum.splits option.splits)

text \<open>
  Claim C5, at \<open>disposedProgram\<close> and \<open>disposedRootProgram\<close>. After \<open>dispose($a)\<close>, the
  read of \<open>$a\<close> inside the derivation (node 1) puts the derivation into the
  \<open>OBSERVERS\<close> set of the disposed source (node 0). A root that has disposed itself
  adopts the node created next under it and accepts the callback of \<open>onDispose\<close>: its
  \<open>CHILDREN\<close> and \<open>DISPOSAL\<close> sets are populated again. The claim says that none of
  the three sets of a disposed node ever receives an element.
\<close>

theorem disposed_sets_repopulated:
  "(case run disposedProgram 10 (Invoke (Fn 0) []) (initial dev) of
      (r, s) \<Rightarrow> r = Inr (Number 10) \<and> DISPOSED (heap s 0) \<and> OBSERVERS (heap s 0) = Some [1])
   \<and> (case run disposedRootProgram 10 (Invoke (Fn 0) []) (initial dev) of
      (r, s) \<Rightarrow> r = Inr (Handle (Fn 2) 0) \<and> DISPOSED (heap s 0)
         \<and> CHILDREN (heap s 0) = Some [1] \<and> DISPOSAL (heap s 0) = Some [Fn 2])"
  by (cases dev) (simp_all add: disposedProgram_def disposedRootProgram_def evaluate)

section \<open>Effect cleanup\<close>

lemma setup_primed:
  "\<exists>s0. run cleanupProgram 10 (Invoke (Fn 0) []) (initial dev) = (Inr (Disposer 2), s0)
        \<and> primed (Number 10) 0 s0"
  by (cases dev) (simp_all add: cleanupProgram_def primed_def countCalls_def evaluate)

text \<open>One round: a write that changes the value, then a flush, re-runs the effect once.\<close>

lemma round_primed:
  assumes "primed v k s" and "w \<noteq> v"
  shows "\<exists>s'. writeAndFlush w s = Some s' \<and> primed w (Suc k) s'"
proof (cases "stacks s")
  case None
  with assms assms(2)[symmetric] show ?thesis
    unfolding primed_def
    by (simp add: writeAndFlush_def cleanupProgram_def countCalls_def symbolic)
next
  case (Some p)
  obtain cs ks where p: "p = (cs, ks)" by (cases p)
  with Some assms(1) have st: "stacks s = Some (cs, [])"
    by (simp add: primed_def computeStack_def)
  with assms assms(2)[symmetric] show ?thesis
    unfolding primed_def
    by (simp add: writeAndFlush_def cleanupProgram_def countCalls_def symbolic)
qed

lemma writes_primed:
  "primed v k s \<Longrightarrow> changing v vs \<Longrightarrow>
     \<exists>s'. writes vs s = Some s' \<and> primed (last (v # vs)) (k + length vs) s'"
proof (induction vs arbitrary: v k s)
  case Nil
  then show ?case by simp
next
  case (Cons w ws)
  from Cons.prems(2) have "w \<noteq> v" and rest: "changing w ws" by simp_all
  with Cons.prems(1) obtain s1 where s1: "writeAndFlush w s = Some s1" "primed w (Suc k) s1"
    using round_primed by blast
  from Cons.IH [OF s1(2) rest] obtain s' where
    "writes ws s1 = Some s'" "primed (last (w # ws)) (Suc k + length ws) s'" by blast
  with s1(1) show ?case by simp
qed

lemma stop_primed:
  assumes "primed v k s"
  shows "\<exists>s'. run cleanupProgram 10 (Invoke (vars s 1) []) s = (Inr Undefined, s')
           \<and> countCalls 0 s' = Suc k \<and> countCalls 1 s' = Suc k"
  using assms unfolding primed_def
  by (simp add: cleanupProgram_def countCalls_def symbolic)

text \<open>
  The body of scenario 6 reads only the source. In \<open>cleanupProgram\<close>, after the priming
  run and \<open>N = length vs\<close> rounds, each a write of a value that differs from the stored
  one followed by a flush, the body has run \<open>N + 1\<close> times (\<open>N\<close> re-runs) and the
  cleanup \<open>N\<close> times; the cleanup is the one element of the \<open>DISPOSAL\<close> set of the
  effect (node 2) and the enclosing root (node 0) has no \<open>DISPOSAL\<close> set. The stop
  function returned by \<open>effect\<close>, \<open>Disposer 2\<close>, then returns normally, and afterwards
  the cleanup has been called \<open>N + 1\<close> times and the body has not run again. This
  holds in development and in production builds.
\<close>

lemma cleanup_on_rerun_and_stop:
  assumes "changing (Number 10) vs"
  shows "\<exists>s0 s1 s2.
      run cleanupProgram 10 (Invoke (Fn 0) []) (initial dev) = (Inr (Disposer 2), s0)
    \<and> writes vs s0 = Some s1
    \<and> countCalls 1 s1 = length vs + 1
    \<and> countCalls 0 s1 = length vs
    \<and> DISPOSAL (heap s1 2) = Some [Fn 3] \<and> DISPOSAL (heap s1 0) = None
    \<and> run cleanupProgram 10 (Invoke (Disposer 2) []) s1 = (Inr Undefined, s2)
    \<and> countCalls 0 s2 = length vs + 1
    \<and> countCalls 1 s2 = length vs + 1"
proof -
  obtain s0 where s0: "run cleanupProgram 10 (Invoke (Fn 0) []) (initial dev) = (Inr (Disposer 2), s0)"
      "primed (Number 10) 0 s0"
    using setup_primed by blast
  from writes_primed [OF s0(2) assms] obtain s1 where
    s1: "writes vs s0 = Some s1" "primed (last (Number 10 # vs)) (length vs) s1" by auto
  from stop_primed [OF s1(2)] obtain s2 where
    s2: "run cleanupProgram 10 (Invoke (vars s1 1) []) s1 = (Inr Undefined, s2)"
      "countCalls 0 s2 = Suc (length vs)" "countCalls 1 s2 = Suc (length vs)" by blast
  from s1(2) have p: "vars s1 1 = Disposer 2" "countCalls 1 s1 = Suc (length vs)"
      "countCalls 0 s1 = length vs" "DISPOSAL (heap s1 2) = Some [Fn 3]" "DISPOSAL (heap s1 0) = None"
    by (simp_all add: primed_def)
  with s0(1) s1(1) s2 show ?thesis by simp
qed

text \<open>
  Claim C6, at \<open>deepProgram\<close>. The effect's body reads the source \<open>$a\<close> and the
  derivation \<open>$e\<close>, whose body reads the derivation \<open>$d\<close>, and returns the cleanup. The
  two nested calls of \<open>compute\<close> leave \<open>currentScope\<close> \<open>null\<close> when \<open>$e()\<close> returns into
  the effect's body, so \<open>effectResult && currentScope && onDispose(effectResult)\<close> does
  not register the cleanup: the effect (node 3) has no \<open>DISPOSAL\<close> set, and after
  \<open>stop()\<close>, with no re-run, the body has run once and the cleanup not at all. The
  claim has the cleanup called once here (\<open>N + 1\<close> with \<open>N = 0\<close>).
\<close>

theorem cleanup_lost_after_nested_reads:
  "(case run deepProgram 12 (Invoke (Fn 0) []) (initial dev) of
      (r, s) \<Rightarrow> r = Inr Undefined \<and> calls s = [(1, [])]
        \<and> DISPOSED (heap s 3) \<and> countCalls 1 s = 1 \<and> countCalls 0 s = 0)"
  by (cases dev) (simp_all add: deepProgram_def countCalls_def evaluate)

section \<open>The ambient slots\<close>

text \<open>
  \<open>compute\<close> does restore both slots when the call of \<open>node\<close> leaves \<open>prevScope\<close> and
  \<open>prevObserver\<close> as it found them, on a normal return and on a throw.
\<close>

lemma compute_restores_when_not_nested:
  assumes "compute rec scope node observer s = (r, s')" and "r \<noteq> Inl OutOfFuel"
    and "\<And>t u. rec node t = (r, u) \<Longrightarrow> prevScope u = prevScope t \<and> prevObserver u = prevObserver t"
  shows "currentScope s' = currentScope s \<and> currentObserver s' = currentObserver s"
  using assms
  by (auto simp add: compute_def tryFinally_def Let_def pushCompute_def popCompute_def
      split: prod.splits sum.splits abort.splits option.splits)

text \<open>
  Claim C7, at \<open>nestedProgram\<close>. Inside the root (node 0) the current scope is the
  root before \<open>$b()\<close>. The read of \<open>$b\<close> enters \<open>compute\<close>, whose body reads \<open>$a\<close> and
  enters \<open>compute\<close> again; the inner call overwrites the module-level \<open>prevScope\<close> and
  \<open>prevObserver\<close> and its \<open>finally\<close> block sets them to \<open>null\<close>, so the \<open>finally\<close> block
  of the outer call restores \<open>null\<close>: after \<open>$b()\<close> has returned normally the current
  scope is \<open>null\<close>, not the root. The claim says that both slots hold what they held
  before the call.
\<close>

theorem nested_compute_loses_scope:
  "(case run nestedProgram 10 (Invoke (Fn 0) []) (initial dev) of
      (r, s) \<Rightarrow> r = Inr Undefined \<and> calls s = [(0, [Ref 0]), (1, [Null])])"
  by (cases dev) (simp_all add: nestedProgram_def evaluate)

section \<open>Writes to a disposed source\<close>

text \<open>
  Claim C8. For a disposed source \<open>n\<close> and any value \<open>v\<close>, \<open>n.set(v)\<close> returns
  \<open>undefined\<close> without throwing and the state after the call is the state before it:
  the stored value, which a later read returns, is unchanged, no node has been marked
  dirty and nothing has been enqueued. The dirty predicate is not called.
\<close>

theorem set_after_dispose:
  assumes "kind (heap s n) = Observable" and "DISPOSED (heap s n)"
  shows "run P (Suc k) (Invoke (Api SET) [Ref n, v]) s = (Inr Undefined, s)"
  using assms by (simp add: step_def call_def apiCall_def arg_def observable_set_def ret_def)

theorem set_after_dispose_witness:
  "kind (heap writeDisposedState 0) = Observable \<and> DISPOSED (heap writeDisposedState 0)
   \<and> run writeDisposedProgram 1 (Invoke (Api SET) [Ref 0, Number 20]) writeDisposedState
       = (Inr Undefined, writeDisposedState)"
proof -
  have h1: "kind (heap writeDisposedState 0) = Observable"
    by (simp add: writeDisposedState_def writeDisposedProgram_def evaluate)
  have h2: "DISPOSED (heap writeDisposedState 0)"
    by (simp add: writeDisposedState_def writeDisposedProgram_def evaluate)
  show ?thesis
    using h1 h2 set_after_dispose [OF h1 h2, of writeDisposedProgram 0 "Number 20"] by simp
qed

section \<open>The stop function of an effect\<close>

text \<open>
  Claim C9. Whenever \<open>effect(f)\<close> returns a value \<open>stop\<close>, for any body \<open>f\<close> and any
  options, \<open>isObservable(stop)\<close> and \<open>isSubject(stop)\<close> are false.
\<close>

theorem effect_stop_not_observable:
  assumes "run P (Suc k) (Invoke (Api (EFFECT_FN oid)) [f]) s = (Inr stop, s')"
  shows "\<not> isObservable stop s' \<and> \<not> isSubject stop s'"
proof -
  from assms obtain e where "stop = Disposer e"
    by (auto simp add: step_def call_def apiCall_def arg_def effect_def andThen_def ret_def
        split: prod.splits sum.splits)
  then show ?thesis by (simp add: isObservable_def isSubject_def)
qed

text \<open>\<open>effect(() => {})\<close> in the initial state.\<close>

theorem effect_stop_not_observable_witness:
  "\<exists>s'. run noProgram 5 (Invoke (Api (EFFECT_FN None)) [Fn 0]) (initial True) = (Inr (Disposer 0), s')
     \<and> \<not> isObservable (Disposer 0) s' \<and> \<not> isSubject (Disposer 0) s'"
proof -
  have "fst (run noProgram 5 (Invoke (Api (EFFECT_FN None)) [Fn 0]) (initial True)) = Inr (Disposer 0)"
    by (simp add: evaluate)
  then obtain s' where
    h: "run noProgram (Suc 4) (Invoke (Api (EFFECT_FN None)) [Fn 0]) (initial True) = (Inr (Disposer 0), s')"
    by (cases "run noProgram 5 (Invoke (Api (EFFECT_FN None)) [Fn 0]) (initial True)") simp
  show ?thesis
    using h effect_stop_not_observable [OF h] by auto
qed

section \<open>\<open>onDispose\<close> outside a scope\<close>

text \<open>
  Claim C10. With no current scope, \<open>onDispose(d)\<close>, for \<open>d\<close> a function or a falsy
  value, returns a function (\<open>d\<close> itself, or \<open>NOOP\<close> when \<open>d\<close> is falsy) without
  throwing, and the state after the call is the state before it: \<open>d\<close> has been added
  to no \<open>DISPOSAL\<close> set, so no disposal calls it on account of this registration.
\<close>

theorem onDispose_without_scope:
  assumes "currentScope s = None" and "callable d s \<or> \<not> truthy d"
  shows "\<exists>h. run P (Suc k) (Invoke (Api ON_DISPOSE) [d]) s = (Inr h, s) \<and> callable h s
           \<and> h = (if truthy d then d else NOOP)"
  using assms
  by (auto simp add: step_def call_def apiCall_def arg_def onDispose_def ret_def callable_def)

theorem onDispose_without_scope_witness:
  "currentScope (initial True) = None \<and> callable (Fn 0) (initial True)
   \<and> run noProgram 1 (Invoke (Api ON_DISPOSE) [Fn 0]) (initial True) = (Inr (Fn 0), initial True)"
proof -
  have h1: "currentScope (initial True) = None" by (simp add: initial_def)
  have h2: "callable (Fn 0) (initial True) \<or> \<not> truthy (Fn 0)" by (simp add: callable_def)
  show ?thesis
    using h1 h2 onDispose_without_scope [OF h1 h2, of noProgram 0] by (auto simp add: callable_def)
qed

end
